theory Spec2Isabelle
  imports Complex_Main "HOL-Library.Word"
begin

section \<open>Strings and characters\<close>

text \<open>
  A JavaScript string is modelled as a \<open>string\<close> whose every \<open>char\<close> stands for one
  code unit (the code units below 256). A JavaScript number is modelled by the exact
  rational it denotes. A parsed amount is kept as the value of its decimal literal and
  stands for the double nearest to it; an addition of numbers is the addition of
  doubles, rounded to the nearest double (section \<open>Addition of doubles\<close>).
\<close>

definition charCode :: "char \<Rightarrow> nat" where
  "charCode c = of_char c"

definition newline :: char where
  "newline = CHR 0x0A"

text \<open>The class \<open>\d\<close> of a regular expression: the ASCII digits.\<close>

definition isDigit :: "char \<Rightarrow> bool" where
  "isDigit c = (48 \<le> charCode c \<and> charCode c \<le> 57)"

text \<open>The class \<open>\w\<close>: ASCII letters, digits and the underscore.\<close>

definition isWordChar :: "char \<Rightarrow> bool" where
  "isWordChar c =
     (isDigit c \<or> (65 \<le> charCode c \<and> charCode c \<le> 90)
      \<or> (97 \<le> charCode c \<and> charCode c \<le> 122) \<or> charCode c = 95)"

text \<open>
  White space as \<open>trim\<close> and the class \<open>\s\<close> see it, among the code units below 256:
  tab, line feed, vertical tab, form feed, carriage return, space, no-break space.
\<close>

definition isSpace :: "char \<Rightarrow> bool" where
  "isSpace c = (charCode c \<in> {9, 10, 11, 12, 13, 32, 160})"

definition trim :: "string \<Rightarrow> string" where
  "trim s = rev (dropWhile isSpace (rev (dropWhile isSpace s)))"

text \<open>Case folding of a case-insensitive regular expression, on ASCII letters.\<close>

definition upperChar :: "char \<Rightarrow> char" where
  "upperChar c =
     (if 97 \<le> charCode c \<and> charCode c \<le> 122 then char_of (charCode c - 32) else c)"

text \<open>\<open>Array.prototype.join\<close>.\<close>

fun joinWith :: "string \<Rightarrow> string list \<Rightarrow> string" where
  "joinWith sep [] = []"
| "joinWith sep [x] = x"
| "joinWith sep (x # y # ys) = x @ sep @ joinWith sep (y # ys)"

text \<open>\<open>text.split(/\n/)\<close>: the pieces between line feeds; the empty text has one piece.\<close>

fun splitLines :: "string \<Rightarrow> string list" where
  "splitLines [] = [[]]"
| "splitLines (c # cs) =
     (if c = newline then [] # splitLines cs
      else (case splitLines cs of
              [] \<Rightarrow> [[c]]
            | l # ls \<Rightarrow> (c # l) # ls))"

text \<open>\<open>parseInt\<close> of a string of decimal digits.\<close>

definition digitVal :: "char \<Rightarrow> nat" where
  "digitVal c = charCode c - 48"

definition parseInt :: "string \<Rightarrow> int" where
  "parseInt ds = foldl (\<lambda>n c. 10 * n + int (digitVal c)) 0 ds"

section \<open>parseAmount\<close>

text \<open>
  \<open>parseFloat\<close> on a string of digits, commas and periods (what \<open>parseAmount\<close> passes
  after cleaning): the longest prefix that is a decimal literal, \<open>None\<close> for NaN.
  A literal is digits with an optional period and further digits, or a period followed
  by digits.
\<close>

definition parseFloat :: "string \<Rightarrow> rat option" where
  "parseFloat s =
     (let ip = takeWhile isDigit s;
          r = dropWhile isDigit s;
          fp = (case r of
                  [] \<Rightarrow> []
                | c # r' \<Rightarrow> if c = CHR ''.'' then takeWhile isDigit r' else [])
      in if ip = [] \<and> fp = [] then None
         else Some (of_int (parseInt ip) + of_int (parseInt fp) / 10 ^ length fp))"

text \<open>\<open>s.replace(',', '.')\<close> with a string pattern: the first occurrence only.\<close>

fun replaceFirst :: "char \<Rightarrow> char \<Rightarrow> string \<Rightarrow> string" where
  "replaceFirst a b [] = []"
| "replaceFirst a b (c # cs) = (if c = a then b # cs else c # replaceFirst a b cs)"

definition countChar :: "char \<Rightarrow> string \<Rightarrow> nat" where
  "countChar a s = length (filter (\<lambda>c. c = a) s)"

definition removeChar :: "char \<Rightarrow> string \<Rightarrow> string" where
  "removeChar a s = filter (\<lambda>c. c \<noteq> a) s"

definition isAmountChar :: "char \<Rightarrow> bool" where
  "isAmountChar c = (isDigit c \<or> c = CHR '','' \<or> c = CHR ''.'')"

definition parseAmount :: "string \<Rightarrow> rat" where
  "parseAmount str =
     (if str = [] then 0
      else
        let cleaned = filter isAmountChar str;
            dots = countChar (CHR ''.'') cleaned;
            commas = countChar (CHR '','') cleaned;
            cleaned' =
              (if dots > 1 then replaceFirst (CHR '','') (CHR ''.'') (removeChar (CHR ''.'') cleaned)
               else if commas > 1 then removeChar (CHR '','') cleaned
               else if dots = 1 \<and> commas = 1 then
                 replaceFirst (CHR '','') (CHR ''.'') (removeChar (CHR ''.'') cleaned)
               else if commas = 1 \<and> dots = 0 then replaceFirst (CHR '','') (CHR ''.'') cleaned
               else cleaned)
        in (case parseFloat cleaned' of None \<Rightarrow> 0 | Some v \<Rightarrow> v))"

section \<open>Addition of doubles\<close>

text \<open>
  The binary64 number nearest to a rational, ties to the even significand: the
  rounding that \<open>+\<close> on numbers and the reading of a decimal literal apply. The exponent
  of a positive rational is the largest \<open>e\<close> with \<open>2 ^ e\<close> at most the rational, and not
  less than -1022 (below it the numbers are subnormal, with the spacing of exponent
  -1022). Beyond the largest double the source has \<open>Infinity\<close>, which has no value
  here; amounts are below 100000000000, so no total of a statement gets there.
\<close>

function expUp :: "rat \<Rightarrow> int \<Rightarrow> int" where
  "expUp m e = (if 2 \<le> m then expUp (m / 2) (e + 1) else e)"
  by pat_completeness auto
termination
proof (relation "measure (\<lambda>(m, e). nat \<lfloor>m\<rfloor>)")
  show "wf (measure (\<lambda>(m, e). nat \<lfloor>m\<rfloor>))" by simp
next
  fix m :: rat and e :: int
  assume m: "2 \<le> m"
  then have "m / 2 \<le> m - 1" by simp
  then have "\<lfloor>m / 2\<rfloor> \<le> \<lfloor>m - 1\<rfloor>" by (rule floor_mono)
  then have "\<lfloor>m / 2\<rfloor> < \<lfloor>m\<rfloor>" by simp
  moreover from m have "2 \<le> \<lfloor>m\<rfloor>" by (simp add: le_floor_iff)
  ultimately show "((m / 2, e + 1), (m, e)) \<in> measure (\<lambda>(m, e). nat \<lfloor>m\<rfloor>)"
    by simp
qed

function expDown :: "rat \<Rightarrow> int \<Rightarrow> int" where
  "expDown m e = (if m < 1 \<and> - 1022 < e then expDown (m * 2) (e - 1) else e)"
  by pat_completeness auto
termination
  by (relation "measure (\<lambda>(m, e). nat (e + 1022))") auto

declare expUp.simps [simp del]
declare expDown.simps [simp del]

definition exponentOf :: "rat \<Rightarrow> int" where
  "exponentOf m = (if 1 \<le> m then expUp m 0 else expDown m 0)"

definition pow2 :: "int \<Rightarrow> rat" where
  "pow2 e = (if 0 \<le> e then 2 ^ nat e else 1 / 2 ^ nat (- e))"

definition roundHalfEven :: "rat \<Rightarrow> int" where
  "roundHalfEven q =
     (let f = \<lfloor>q\<rfloor>; r = q - of_int f
      in if r < 1 / 2 then f
         else if 1 / 2 < r then f + 1
         else if even f then f
         else f + 1)"

definition toDouble :: "rat \<Rightarrow> rat" where
  "toDouble x =
     (if x = 0 then 0
      else
        let m = \<bar>x\<bar>;
            u = exponentOf m - 52
        in sgn x * of_int (roundHalfEven (m / pow2 u)) * pow2 u)"

text \<open>\<open>a + b\<close> on numbers: the double nearest to the sum of the two doubles.\<close>

definition jsAdd :: "rat \<Rightarrow> rat \<Rightarrow> rat" where
  "jsAdd a b = toDouble (toDouble a + toDouble b)"

section \<open>Regular-expression helpers\<close>

text \<open>
  A literal of a case-insensitive pattern at the start of a text: the rest of the text
  after it, or \<open>None\<close>.
\<close>

fun matchCI :: "string \<Rightarrow> string \<Rightarrow> string option" where
  "matchCI [] s = Some s"
| "matchCI (p # ps) [] = None"
| "matchCI (p # ps) (c # cs) = (if upperChar c = upperChar p then matchCI ps cs else None)"

text \<open>An unanchored pattern is tried at every position, leftmost first.\<close>

fun searchFirst :: "(string \<Rightarrow> 'a option) \<Rightarrow> string \<Rightarrow> 'a option" where
  "searchFirst f [] = f []"
| "searchFirst f (c # cs) =
     (case f (c # cs) of
        Some r \<Rightarrow> Some r
      | None \<Rightarrow> searchFirst f cs)"

definition containsCI :: "string \<Rightarrow> string \<Rightarrow> bool" where
  "containsCI pat s = (case searchFirst (matchCI pat) s of None \<Rightarrow> False | Some _ \<Rightarrow> True)"

text \<open>The class \<open>[:\s]\<close>.\<close>

definition isSepChar :: "char \<Rightarrow> bool" where
  "isSepChar c = (c = CHR '':'' \<or> isSpace c)"

section \<open>Pre-scan: period and balances\<close>

definition monthNames :: "string list" where
  "monthNames =
     [''JANUARI'', ''FEBRUARI'', ''MARET'', ''APRIL'', ''MEI'', ''JUNI'',
      ''JULI'', ''AGUSTUS'', ''SEPTEMBER'', ''OKTOBER'', ''NOVEMBER'', ''DESEMBER'']"

definition monthMap :: "string \<Rightarrow> int option" where
  "monthMap =
     map_of [(''JANUARI'', 1), (''FEBRUARI'', 2), (''MARET'', 3), (''APRIL'', 4),
       (''MEI'', 5), (''JUNI'', 6), (''JULI'', 7), (''AGUSTUS'', 8), (''SEPTEMBER'', 9),
       (''OKTOBER'', 10), (''NOVEMBER'', 11), (''DESEMBER'', 12)]"

text \<open>The tail \<open>[\s]+(\d{4})\<close> of the period pattern: the four digits.\<close>

definition periodTail :: "string \<Rightarrow> string option" where
  "periodTail s =
     (let r = dropWhile isSpace s
      in if takeWhile isSpace s = [] then None
         else if 4 \<le> length r \<and> list_all isDigit (take 4 r) then Some (take 4 r)
         else None)"

text \<open>The alternatives of the month group, in the pattern's order, each followed by the tail.\<close>

fun periodMonth :: "string list \<Rightarrow> string \<Rightarrow> (string \<times> string) option" where
  "periodMonth [] s = None"
| "periodMonth (m # ms) s =
     (case matchCI m s of
        None \<Rightarrow> periodMonth ms s
      | Some rest \<Rightarrow>
          (case periodTail rest of
             None \<Rightarrow> periodMonth ms s
           | Some y \<Rightarrow> Some (take (length m) s, y)))"

text \<open>
  \<open>/PERIODE[:\s]+(JANUARI|...|DESEMBER)[\s]+(\d{4})/i\<close> at the start of a text: the two
  groups.
\<close>

definition periodAt :: "string \<Rightarrow> (string \<times> string) option" where
  "periodAt s =
     (case matchCI ''PERIODE'' s of
        None \<Rightarrow> None
      | Some r \<Rightarrow>
          if takeWhile isSepChar r = [] then None
          else periodMonth monthNames (dropWhile isSepChar r))"

text \<open>
  \<open>/SALDO[\s]+AWAL[:\s]*([\d,\.]+)/i\<close> (and the same with \<open>AKHIR\<close>) at the start of a text:
  the group.
\<close>

definition saldoAt :: "string \<Rightarrow> string \<Rightarrow> string option" where
  "saldoAt word s =
     (case matchCI ''SALDO'' s of
        None \<Rightarrow> None
      | Some r \<Rightarrow>
          if takeWhile isSpace r = [] then None
          else (case matchCI word (dropWhile isSpace r) of
                  None \<Rightarrow> None
                | Some r2 \<Rightarrow>
                    (let tok = takeWhile isAmountChar (dropWhile isSepChar r2)
                     in if tok = [] then None else Some tok)))"

section \<open>Dates\<close>

text \<open>\<open>String(n)\<close> of an integer.\<close>

function showDigits :: "int \<Rightarrow> string" where
  "showDigits n =
     (if n < 10 then [''0123456789'' ! nat n]
      else showDigits (n div 10) @ [''0123456789'' ! nat (n mod 10)])"
  by pat_completeness auto
termination
  by (relation "measure nat") auto

declare showDigits.simps [simp del]

definition showInt :: "int \<Rightarrow> string" where
  "showInt n = (if n < 0 then CHR ''-'' # showDigits (- n) else showDigits n)"

text \<open>\<open>s.padStart(2, '0')\<close>.\<close>

definition padStart2 :: "string \<Rightarrow> string" where
  "padStart2 s = (if length s < 2 then replicate (2 - length s) (CHR ''0'') @ s else s)"

text \<open>
  \<open>new Date(year, month, 0).getDate()\<close>: the last day of the month numbered \<open>month\<close>
  (1 to 12); the \<open>Date\<close> constructor reads a year from 0 to 99 as 1900 plus that year.
\<close>

definition isLeapYear :: "int \<Rightarrow> bool" where
  "isLeapYear y = (y mod 4 = 0 \<and> (y mod 400 = 0 \<or> y mod 100 \<noteq> 0))"

definition daysInMonth :: "int \<Rightarrow> int \<Rightarrow> int" where
  "daysInMonth y m =
     (if m = 2 then (if isLeapYear y then 29 else 28)
      else if m = 4 \<or> m = 6 \<or> m = 9 \<or> m = 11 then 30
      else 31)"

definition lastDayOfMonth :: "int \<Rightarrow> int \<Rightarrow> int" where
  "lastDayOfMonth year month =
     daysInMonth (if 0 \<le> year \<and> year \<le> 99 then 1900 + year else year) month"

definition isoDate :: "int \<Rightarrow> int \<Rightarrow> int \<Rightarrow> string" where
  "isoDate year mon day =
     showInt year @ ''-'' @ padStart2 (showInt mon) @ ''-'' @ padStart2 (showInt day)"

section \<open>The block parser\<close>

record ParsedTransaction =
  date :: string
  description :: string
  reference :: string
  branchCode :: string
  debitAmount :: rat
  creditAmount :: rat
  balance :: "rat option"

record ParsedStatement =
  period :: string
  startDate :: string
  endDate :: string
  openingBalance :: rat
  closingBalance :: rat
  totalDebits :: rat
  totalCredits :: rat
  transactions :: "ParsedTransaction list"

text \<open>
  \<open>line.match(/^(\d{2})\/(\d{2})$/)\<close> with \<open>parseInt\<close> of the two groups: the day and
  the month, or \<open>None\<close> when the line does not match.
\<close>

definition dateMatch :: "string \<Rightarrow> (int \<times> int) option" where
  "dateMatch line =
     (case line of
        [a, b, s, c, d] \<Rightarrow>
          if isDigit a \<and> isDigit b \<and> s = CHR ''/'' \<and> isDigit c \<and> isDigit d
          then Some (parseInt [a, b], parseInt [c, d])
          else None
      | _ \<Rightarrow> None)"

text \<open>The test of the inner loop: the next line is another transaction's date.\<close>

definition isNextDate :: "string \<Rightarrow> bool" where
  "isNextDate nextLine =
     (case dateMatch nextLine of
        None \<Rightarrow> False
      | Some (testDay, testMon) \<Rightarrow>
          testDay \<ge> 1 \<and> testDay \<le> 31 \<and> testMon \<ge> 1 \<and> testMon \<le> 12)"

text \<open>
  The inner loop. The lines from position \<open>j\<close> on are the second argument; the result
  is \<open>descriptionLines\<close> and the lines from the final \<open>j\<close> on.
\<close>

fun collectLines :: "string list \<Rightarrow> string list \<Rightarrow> string list \<times> string list" where
  "collectLines descriptionLines [] = (descriptionLines, [])"
| "collectLines descriptionLines (nextLine # ls) =
     (if isNextDate nextLine then (descriptionLines, nextLine # ls)
      else if length (descriptionLines @ [nextLine]) > 50 then (descriptionLines @ [nextLine], ls)
      else collectLines (descriptionLines @ [nextLine]) ls)"

text \<open>\<open>/TANGGAL|KETERANGAN|CABANG|MUTASI|SALDO|Halaman|Bersambung/i\<close>.\<close>

definition isHeaderNoise :: "string \<Rightarrow> bool" where
  "isHeaderNoise s =
     list_ex (\<lambda>w. containsCI w s)
       [''TANGGAL'', ''KETERANGAN'', ''CABANG'', ''MUTASI'', ''SALDO'', ''Halaman'',
        ''Bersambung'']"

text \<open>
  The successive matches of \<open>/([\d,\.]+)/g\<close>: the maximal runs of digits, commas and
  periods. The first argument is the run being read.
\<close>

fun amountTokens :: "string \<Rightarrow> string \<Rightarrow> string list" where
  "amountTokens cur [] = (if cur = [] then [] else [cur])"
| "amountTokens cur (c # cs) =
     (if isAmountChar c then amountTokens (cur @ [c]) cs
      else if cur = [] then amountTokens [] cs
      else cur # amountTokens [] cs)"

text \<open>The loop over the matches: the amounts kept.\<close>

fun collectAmounts :: "string list \<Rightarrow> rat list" where
  "collectAmounts [] = []"
| "collectAmounts (m # ms) =
     (let amt = parseAmount m
      in if amt > 0 \<and> amt < 100000000000 then amt # collectAmounts ms
         else collectAmounts ms)"

text \<open>
  \<open>/\bCR\b/i.test(s)\<close>. The flag tells whether the character before the current
  position is a word character.
\<close>

fun hasWordCR :: "bool \<Rightarrow> string \<Rightarrow> bool" where
  "hasWordCR prevWord (c # r # rest) =
     (if \<not> prevWord \<and> upperChar c = CHR ''C'' \<and> upperChar r = CHR ''R''
         \<and> (case rest of [] \<Rightarrow> True | x # _ \<Rightarrow> \<not> isWordChar x)
      then True
      else hasWordCR (isWordChar c) (r # rest))"
| "hasWordCR prevWord s = False"

text \<open>\<open>/\d{4}\/[\w\/]+/\<close> at the start of a text: the whole match.\<close>

definition isRefChar :: "char \<Rightarrow> bool" where
  "isRefChar c = (isWordChar c \<or> c = CHR ''/'')"

definition refAt :: "string \<Rightarrow> string option" where
  "refAt s =
     (case s of
        a # b # c # d # sl # rest \<Rightarrow>
          if isDigit a \<and> isDigit b \<and> isDigit c \<and> isDigit d \<and> sl = CHR ''/''
             \<and> takeWhile isRefChar rest \<noteq> []
          then Some ([a, b, c, d, sl] @ takeWhile isRefChar rest)
          else None
      | _ \<Rightarrow> None)"

text \<open>
  What the outer loop does with a collected block: \<open>None\<close> when the block is skipped,
  the transaction pushed otherwise.
\<close>

definition processBlock :: "int \<Rightarrow> int \<Rightarrow> int \<Rightarrow> string list \<Rightarrow> ParsedTransaction option" where
  "processBlock year day mon descriptionLines =
     (let fullDescription = joinWith [newline] descriptionLines
      in if isHeaderNoise fullDescription then None
         else if length (trim fullDescription) < 3 then None
         else
           let textForAmounts = joinWith '' '' descriptionLines;
               amounts = collectAmounts (amountTokens [] textForAmounts)
           in (case amounts of
                 [] \<Rightarrow> None
               | amount # _ \<Rightarrow>
                   let isCredit = hasWordCR False textForAmounts;
                       bal = (if length amounts > 1 then Some (last amounts) else None);
                       ref = (case searchFirst refAt textForAmounts of
                                None \<Rightarrow> []
                              | Some r \<Rightarrow> r)
                   in Some \<lparr> date = isoDate year mon day,
                              description = fullDescription,
                              reference = ref,
                              branchCode = [],
                              debitAmount = (if isCredit then 0 else amount),
                              creditAmount = (if isCredit then amount else 0),
                              balance = bal \<rparr>))"

lemma collectLines_rest_length:
  "collectLines acc ls = (d, r) \<Longrightarrow> length r \<le> length ls"
  by (induction acc ls arbitrary: d r rule: collectLines.induct)
     (auto split: if_splits simp: le_SucI)

text \<open>
  The outer loop. The lines from position \<open>i\<close> on are the second argument; the result is
  the transactions pushed from there on, in order.
\<close>

function scanLines :: "int \<Rightarrow> string list \<Rightarrow> ParsedTransaction list" where
  "scanLines year [] = []"
| "scanLines year (line # ls) =
     (case dateMatch line of
        None \<Rightarrow> scanLines year ls
      | Some (day, mon) \<Rightarrow>
          if day < 1 \<or> day > 31 \<or> mon < 1 \<or> mon > 12 then scanLines year ls
          else (case collectLines [] ls of
                  (descriptionLines, rest) \<Rightarrow>
                    (case processBlock year day mon descriptionLines of
                       None \<Rightarrow> scanLines year rest
                     | Some t \<Rightarrow> t # scanLines year rest)))"
  by pat_completeness auto
termination
  by (relation "measure (\<lambda>(y, ls). length ls)")
     (auto dest: collectLines_rest_length [OF sym] simp: less_Suc_eq_le)

text \<open>
  \<open>parseBCAStatement\<close>. The year of the clock, \<open>new Date().getFullYear()\<close>, is the
  first argument. The two totals are the \<open>reduce\<close> of the source: a left fold of the
  addition of doubles from 0.
\<close>

definition parseBCAStatement :: "int \<Rightarrow> string \<Rightarrow> string \<Rightarrow> ParsedStatement" where
  "parseBCAStatement currentYear text currency =
     (let periodMatch = searchFirst periodAt text;
          per = (case periodMatch of None \<Rightarrow> [] | Some (m, y) \<Rightarrow> m @ '' '' @ y);
          year = (case periodMatch of None \<Rightarrow> currentYear | Some (m, y) \<Rightarrow> parseInt y);
          month = (case periodMatch of
                     None \<Rightarrow> 1
                   | Some (m, y) \<Rightarrow>
                       (case monthMap (map upperChar m) of None \<Rightarrow> 1 | Some n \<Rightarrow> n));
          opening = (case searchFirst (saldoAt ''AWAL'') text of
                       None \<Rightarrow> 0
                     | Some tok \<Rightarrow> parseAmount tok);
          closing = (case searchFirst (saldoAt ''AKHIR'') text of
                       None \<Rightarrow> 0
                     | Some tok \<Rightarrow> parseAmount tok);
          start = showInt year @ ''-'' @ padStart2 (showInt month) @ ''-01'';
          lastDay = lastDayOfMonth year month;
          end = showInt year @ ''-'' @ padStart2 (showInt month) @ ''-''
                  @ padStart2 (showInt lastDay);
          lines = filter (\<lambda>l. length l > 0) (map trim (splitLines text));
          txns = scanLines year lines
      in \<lparr> period = per,
           startDate = start,
           endDate = end,
           openingBalance = opening,
           closingBalance = closing,
           totalDebits = foldl (\<lambda>s t. jsAdd s (debitAmount t)) 0 txns,
           totalCredits = foldl (\<lambda>s t. jsAdd s (creditAmount t)) 0 txns,
           transactions = txns \<rparr>)"

section \<open>Raw text extraction\<close>

text \<open>
  The matches of \<open>/\(([^)]+)\)/g\<close>, by their group: an opening parenthesis, at least one
  character that is not a closing parenthesis, and the closing parenthesis that follows.
  The search goes on after the match, or one character further when there is none.
\<close>

lemma tl_dropWhile_shorter:
  "length (dropWhile P xs) - Suc 0 < Suc (length xs)"
  by (simp add: less_Suc_eq_le le_trans [OF diff_le_self length_dropWhile_le])

function parenMatches :: "string \<Rightarrow> string list" where
  "parenMatches [] = []"
| "parenMatches (c # cs) =
     (if c = CHR ''(''
         \<and> takeWhile (\<lambda>x. x \<noteq> CHR '')'') cs \<noteq> []
         \<and> dropWhile (\<lambda>x. x \<noteq> CHR '')'') cs \<noteq> []
      then takeWhile (\<lambda>x. x \<noteq> CHR '')'') cs
             # parenMatches (tl (dropWhile (\<lambda>x. x \<noteq> CHR '')'') cs))
      else parenMatches cs)"
  by pat_completeness auto
termination
  by (relation "measure length") (auto simp: tl_dropWhile_shorter)

text \<open>
  \<open>s.replace(/ab/g, r)\<close> for a pattern of two literal characters: every match, left to
  right, without overlap.
\<close>

fun replaceAll2 :: "char \<Rightarrow> char \<Rightarrow> string \<Rightarrow> string \<Rightarrow> string" where
  "replaceAll2 a b r (x # y # zs) =
     (if x = a \<and> y = b then r @ replaceAll2 a b r zs else x # replaceAll2 a b r (y # zs))"
| "replaceAll2 a b r zs = zs"

definition backslash :: char where
  "backslash = CHR 0x5C"

text \<open>The six replacements, in the order of the chain.\<close>

definition unescape :: "string \<Rightarrow> string" where
  "unescape t =
     replaceAll2 backslash (CHR '')'') '')''
       (replaceAll2 backslash (CHR ''('') ''(''
         (replaceAll2 backslash backslash [backslash]
           (replaceAll2 backslash (CHR ''t'') '' ''
             (replaceAll2 backslash (CHR ''r'') []
               (replaceAll2 backslash (CHR ''n'') [newline] t)))))"

definition isHexDigit :: "char \<Rightarrow> bool" where
  "isHexDigit c =
     (isDigit c \<or> (65 \<le> charCode c \<and> charCode c \<le> 70)
      \<or> (97 \<le> charCode c \<and> charCode c \<le> 102))"

definition hexVal :: "char \<Rightarrow> nat" where
  "hexVal c =
     (if isDigit c then charCode c - 48
      else if 65 \<le> charCode c \<and> charCode c \<le> 70 then charCode c - 55
      else charCode c - 87)"

text \<open>
  The matches of \<open>/<([0-9A-Fa-f]+)>/g\<close>, by their group: a run of hexadecimal digits
  between angle brackets.
\<close>

function hexMatches :: "string \<Rightarrow> string list" where
  "hexMatches [] = []"
| "hexMatches (c # cs) =
     (if c = CHR ''<''
         \<and> takeWhile isHexDigit cs \<noteq> []
         \<and> (case dropWhile isHexDigit cs of [] \<Rightarrow> False | x # _ \<Rightarrow> x = CHR ''>'')
      then takeWhile isHexDigit cs # hexMatches (tl (dropWhile isHexDigit cs))
      else hexMatches cs)"
  by pat_completeness auto
termination
  by (relation "measure length") (auto simp: tl_dropWhile_shorter)

text \<open>What one byte of a hex string adds to \<open>decoded\<close>.\<close>

definition decodeByte :: "nat \<Rightarrow> string" where
  "decodeByte byte =
     (if byte \<ge> 32 \<and> byte \<le> 126 then [char_of byte]
      else if byte = 10 then [newline]
      else if byte = 32 then '' ''
      else [])"

text \<open>The loop over the pairs of hexadecimal digits of a run of even length.\<close>

fun decodeHex :: "string \<Rightarrow> string" where
  "decodeHex (a # b # rest) = decodeByte (hexVal a * 16 + hexVal b) @ decodeHex rest"
| "decodeHex rest = []"

text \<open>The loop over the hex matches: the blocks pushed.\<close>

fun hexParts :: "string list \<Rightarrow> string list" where
  "hexParts [] = []"
| "hexParts (hexStr # ms) =
     (if length hexStr mod 2 = 0
      then (if trim (decodeHex hexStr) = [] then hexParts ms
            else decodeHex hexStr # hexParts ms)
      else hexParts ms)"

text \<open>
  \<open>extractTextFromPDF\<close>. The platform's \<open>TextDecoder\<close> (UTF-8, not fatal) is the first
  argument: a total function from the bytes to the text \<open>raw\<close>.
\<close>

definition extractTextFromPDF :: "(8 word list \<Rightarrow> string) \<Rightarrow> 8 word list \<Rightarrow> string" where
  "extractTextFromPDF decoder pdfData =
     (let raw = decoder pdfData;
          parts = map unescape (parenMatches raw)
      in joinWith [newline] (if parts = [] then hexParts (hexMatches raw) else parts))"

section \<open>The recognition path\<close>

datatype error =
    OcrNotConfigured
  | FetchRejected
  | OpenAICannotProcessPdf
  | OpenAIServiceFailed string
  | InvalidResponseBody
  | OpenAINoResults
  | OpenAIInsufficientText
  | OcrInsufficientText

text \<open>
  What the recognition service answers: the request fails, the response is not ok
  (with its body), the body is not JSON, the body has no \<open>choices[0].message\<close>, or the
  message with its \<open>content\<close> (absent or a string).
\<close>

datatype ocrResponse =
    Rejected
  | NotOk string
  | NotJson
  | NoMessage
  | Message "string option"

text \<open>\<open>s.includes(p)\<close>.\<close>

definition includesStr :: "string \<Rightarrow> string \<Rightarrow> bool" where
  "includesStr s p = list_ex (\<lambda>k. take (length p) (drop k s) = p) [0..<Suc (length s)]"

definition extractTextWithOpenAI :: "ocrResponse \<Rightarrow> error + string" where
  "extractTextWithOpenAI response =
     (case response of
        Rejected \<Rightarrow> Inl FetchRejected
      | NotOk errorText \<Rightarrow>
          if includesStr errorText ''pdf'' \<or> includesStr errorText ''format''
          then Inl OpenAICannotProcessPdf
          else Inl (OpenAIServiceFailed (take 200 errorText))
      | NotJson \<Rightarrow> Inl InvalidResponseBody
      | NoMessage \<Rightarrow> Inl OpenAINoResults
      | Message content \<Rightarrow>
          (case content of
             None \<Rightarrow> Inl OpenAIInsufficientText
           | Some extractedText \<Rightarrow>
               if extractedText = [] \<or> length extractedText < 50
               then Inl OpenAIInsufficientText
               else Inr extractedText))"

text \<open>
  The request handler from the choice of the path to the text handed to the parser:
  an error is what the handler throws.
\<close>

definition acquireText ::
  "bool \<Rightarrow> bool \<Rightarrow> string option \<Rightarrow> ocrResponse \<Rightarrow> (8 word list \<Rightarrow> string) \<Rightarrow> 8 word list
     \<Rightarrow> error + string" where
  "acquireText isImageFile useOCR openaiKey response decoder uint8Array =
     (if isImageFile \<or> useOCR then
        (case openaiKey of
           None \<Rightarrow> Inl OcrNotConfigured
         | Some k \<Rightarrow>
             if k = [] then Inl OcrNotConfigured
             else (case extractTextWithOpenAI response of
                     Inl e \<Rightarrow> Inl e
                   | Inr text \<Rightarrow>
                       if length text < 100 then Inl OcrInsufficientText else Inr text))
      else Inr (extractTextFromPDF decoder uint8Array))"

section \<open>Notions of the specification\<close>

text \<open>
  \<open>CR\<close> as a whole word, in either case: the text splits into a part before, the two
  letters and a part after, with no word character next to the letters. The flag tells
  whether a word character stands before the text.
\<close>

definition specWordCR :: "bool \<Rightarrow> string \<Rightarrow> bool" where
  "specWordCR p s =
     (\<exists>pre c r post. s = pre @ c # r # post
        \<and> upperChar c = CHR ''C'' \<and> upperChar r = CHR ''R''
        \<and> (if pre = [] then \<not> p else \<not> isWordChar (last pre))
        \<and> (post = [] \<or> \<not> isWordChar (hd post)))"


text \<open>The two hexadecimal digits that write a byte in a hex string.\<close>

definition specHexPair :: "nat \<Rightarrow> string" where
  "specHexPair byte = [''0123456789ABCDEF'' ! (byte div 16), ''0123456789ABCDEF'' ! (byte mod 16)]"

section \<open>Lemmas: amounts\<close>

lemma countChar_Cons:
  "countChar a (c # cs) = (if c = a then Suc (countChar a cs) else countChar a cs)"
  by (simp add: countChar_def)

lemma countChar_zero_map:
  "countChar a s = 0 \<Longrightarrow> map (\<lambda>c. if c = a then b else c) s = s"
  by (induction s) (auto simp: countChar_Cons split: if_splits)

lemma replaceFirst_single:
  "countChar a s \<le> 1 \<Longrightarrow> replaceFirst a b s = map (\<lambda>c. if c = a then b else c) s"
  by (induction s) (auto simp: countChar_Cons countChar_zero_map split: if_splits)

lemma countChar_removeChar:
  "a \<noteq> b \<Longrightarrow> countChar a (removeChar b s) = countChar a s"
  by (induction s) (auto simp: countChar_def removeChar_def)

lemma parseAmount_one_period_one_comma:
  assumes "countChar (CHR ''.'') (filter isAmountChar tok) = 1"
    and "countChar (CHR '','') (filter isAmountChar tok) = 1"
  shows "parseAmount tok =
     (case parseFloat (map (\<lambda>c. if c = CHR '','' then CHR ''.'' else c)
                        (removeChar (CHR ''.'') (filter isAmountChar tok))) of
        None \<Rightarrow> 0 | Some v \<Rightarrow> v)"
proof -
  have ne: "tok \<noteq> []" using assms(1) by (auto simp: countChar_def)
  have c: "countChar (CHR '','') (removeChar (CHR ''.'') (filter isAmountChar tok)) \<le> 1"
    using assms(2) by (simp add: countChar_removeChar)
  show ?thesis
    using ne assms by (simp add: parseAmount_def Let_def replaceFirst_single [OF c])
qed

lemma isAmountChar_digit: "isDigit c \<Longrightarrow> isAmountChar c"
  by (simp add: isAmountChar_def)

lemma digit_not_punct: "isDigit c \<Longrightarrow> c \<noteq> CHR ''.'' \<and> c \<noteq> CHR '',''"
  by (auto simp: isDigit_def charCode_def)

lemma digits_filter: "list_all isDigit ds \<Longrightarrow> filter isAmountChar ds = ds"
  by (induction ds) (auto simp: isAmountChar_digit)

lemma digits_count: "list_all isDigit ds \<Longrightarrow> countChar (CHR ''.'') ds = 0 \<and> countChar (CHR '','') ds = 0"
  by (induction ds) (auto simp: countChar_Cons countChar_def dest: digit_not_punct)

lemma digits_remove: "list_all isDigit ds \<Longrightarrow> removeChar (CHR ''.'') ds = ds"
  by (induction ds) (auto simp: removeChar_def dest: digit_not_punct)

lemma digits_map: "list_all isDigit ds \<Longrightarrow> map (\<lambda>c. if c = CHR '','' then CHR ''.'' else c) ds = ds"
  by (induction ds) (auto dest: digit_not_punct)

lemma countChar_append: "countChar a (xs @ ys) = countChar a xs + countChar a ys"
  by (simp add: countChar_def)

lemma removeChar_Cons:
  "removeChar a (c # cs) = (if c = a then removeChar a cs else c # removeChar a cs)"
  by (simp add: removeChar_def)

lemma removeChar_append: "removeChar a (xs @ ys) = removeChar a xs @ removeChar a ys"
  by (simp add: removeChar_def)

lemma takeWhile_digits:
  "list_all isDigit ds \<Longrightarrow> \<not> isDigit c \<Longrightarrow> takeWhile isDigit (ds @ c # r) = ds \<and> dropWhile isDigit (ds @ c # r) = c # r"
  by (induction ds) auto

lemma takeWhile_digits_end:
  "list_all isDigit ds \<Longrightarrow> takeWhile isDigit ds = ds"
  by (induction ds) auto

lemma not_digit_period: "\<not> isDigit (CHR ''.'')"
  by (simp add: isDigit_def charCode_def)

lemma parseFloat_decimal:
  assumes "list_all isDigit ip" "list_all isDigit fp"
  shows "parseFloat (ip @ CHR ''.'' # fp) =
     (if ip = [] \<and> fp = [] then None
      else Some (of_int (parseInt ip) + of_int (parseInt fp) / 10 ^ length fp))"
  using assms takeWhile_digits [OF assms(1) not_digit_period, of fp]
  by (simp add: parseFloat_def Let_def takeWhile_digits_end)

lemma parseInt_Nil: "parseInt [] = 0" by (simp add: parseInt_def)

lemma parseAmount_indonesian:
  assumes a: "list_all isDigit a" and b: "list_all isDigit b" and c: "list_all isDigit c"
  shows "parseAmount (a @ ''.'' @ b @ '','' @ c)
           = of_int (parseInt (a @ b)) + of_int (parseInt c) / 10 ^ length c"
proof -
  let ?tok = "a @ ''.'' @ b @ '','' @ c"
  have f: "filter isAmountChar ?tok = ?tok"
    using a b c by (simp add: digits_filter isAmountChar_def)
  have d: "countChar (CHR ''.'') ?tok = 1" and k: "countChar (CHR '','') ?tok = 1"
    using a b c by (simp_all add: countChar_append digits_count countChar_Cons)
  have r: "map (\<lambda>c. if c = CHR '','' then CHR ''.'' else c) (removeChar (CHR ''.'') ?tok)
             = (a @ b) @ CHR ''.'' # c"
  proof -
    have "removeChar (CHR ''.'') ?tok = a @ b @ CHR '','' # c"
      using a b c by (simp add: removeChar_append removeChar_Cons digits_remove)
    then show ?thesis using a b c by (simp add: digits_map)
  qed
  have ab: "list_all isDigit (a @ b)" using a b by simp
  show ?thesis
    using parseAmount_one_period_one_comma [of ?tok] parseFloat_decimal [OF ab c]
    by (simp only: f d k r) (simp add: parseInt_Nil)
qed

section \<open>Lemmas: blocks and transactions\<close>

lemma collectAmounts_filter:
  "collectAmounts toks
     = filter (\<lambda>v. 0 < v \<and> v < 100000000000) (map parseAmount toks)"
  by (induction toks) (simp_all add: Let_def)

lemma collectAmounts_positive: "v \<in> set (collectAmounts toks) \<Longrightarrow> 0 < v"
  by (simp add: collectAmounts_filter)

lemma processBlock_Some:
  assumes "processBlock year day mon block = Some t"
  shows "collectAmounts (amountTokens [] (joinWith '' '' block)) \<noteq> []
           \<and> \<not> isHeaderNoise (joinWith [newline] block)
           \<and> 3 \<le> length (trim (joinWith [newline] block))
           \<and> date t = isoDate year mon day
           \<and> description t = joinWith [newline] block
           \<and> debitAmount t = (if hasWordCR False (joinWith '' '' block) then 0
                else hd (collectAmounts (amountTokens [] (joinWith '' '' block))))
           \<and> creditAmount t = (if hasWordCR False (joinWith '' '' block)
                then hd (collectAmounts (amountTokens [] (joinWith '' '' block))) else 0)
           \<and> balance t =
               (if length (collectAmounts (amountTokens [] (joinWith '' '' block))) > 1
                then Some (last (collectAmounts (amountTokens [] (joinWith '' '' block))))
                else None)"
proof (cases "collectAmounts (amountTokens [] (joinWith '' '' block))")
  case Nil
  with assms show ?thesis by (simp add: processBlock_def Let_def split: if_splits)
next
  case (Cons a as)
  with assms show ?thesis
    by (auto simp: processBlock_def Let_def split: if_splits)
qed


lemma scanLines_mem:
  "t \<in> set (scanLines year ls) \<Longrightarrow>
     \<exists>day mon block. processBlock year day mon block = Some t"
proof (induction "length ls" arbitrary: ls rule: less_induct)
  case less
  show ?case
  proof (cases ls)
    case Nil
    with less.prems show ?thesis by simp
  next
    case (Cons line ls')
    have ih: "\<And>r. length r \<le> length ls' \<Longrightarrow> t \<in> set (scanLines year r) \<Longrightarrow>
                 \<exists>day mon block. processBlock year day mon block = Some t"
      using less.hyps Cons by (simp add: less_Suc_eq_le)
    obtain d rest where c: "collectLines [] ls' = (d, rest)"
      by (cases "collectLines [] ls'")
    have lr: "length rest \<le> length ls'"
      using collectLines_rest_length [OF c] .
    from less.prems show ?thesis
      unfolding Cons using ih [OF lr] ih [of ls'] c
      by (auto split: option.splits if_splits)
  qed
qed

lemma transactions_parse:
  "transactions (parseBCAStatement y input cur) =
     scanLines (case searchFirst periodAt input of None \<Rightarrow> y | Some (m, yy) \<Rightarrow> parseInt yy)
       (filter (\<lambda>l. length l > 0) (map trim (splitLines input)))"
  by (simp add: parseBCAStatement_def Let_def)




lemma specWordCR_Nil: "\<not> specWordCR p []"
  by (simp add: specWordCR_def)

lemma specWordCR_single: "\<not> specWordCR p [x]"
  by (simp add: specWordCR_def Cons_eq_append_conv)

lemma specWordCR_Cons:
  "specWordCR p (c # r # rest) \<longleftrightarrow>
     (\<not> p \<and> upperChar c = CHR ''C'' \<and> upperChar r = CHR ''R''
        \<and> (rest = [] \<or> \<not> isWordChar (hd rest)))
     \<or> specWordCR (isWordChar c) (r # rest)"
  (is "?L \<longleftrightarrow> ?A \<or> ?B")
proof
  assume ?L
  then obtain pre c' r' post where
    s: "c # r # rest = pre @ c' # r' # post"
    and C: "upperChar c' = CHR ''C''" and R: "upperChar r' = CHR ''R''"
    and b: "if pre = [] then \<not> p else \<not> isWordChar (last pre)"
    and e: "post = [] \<or> \<not> isWordChar (hd post)"
    unfolding specWordCR_def by blast
  show "?A \<or> ?B"
  proof (cases pre)
    case Nil
    with s C R b e show ?thesis by auto
  next
    case (Cons x pre')
    with s have x: "x = c" and s': "r # rest = pre' @ c' # r' # post" by simp_all
    have "if pre' = [] then \<not> isWordChar c else \<not> isWordChar (last pre')"
      using b Cons x by (simp split: if_splits)
    with s' C R e have ?B unfolding specWordCR_def by blast
    then show ?thesis ..
  qed
next
  assume "?A \<or> ?B"
  then show ?L
  proof
    assume ?A
    then show ?L unfolding specWordCR_def
      by (intro exI [of _ "[]"] exI [of _ c] exI [of _ r] exI [of _ rest]) simp
  next
    assume ?B
    then obtain pre c' r' post where
      s: "r # rest = pre @ c' # r' # post"
      and C: "upperChar c' = CHR ''C''" and R: "upperChar r' = CHR ''R''"
      and b: "if pre = [] then \<not> isWordChar c else \<not> isWordChar (last pre)"
      and e: "post = [] \<or> \<not> isWordChar (hd post)"
      unfolding specWordCR_def by blast
    show ?L unfolding specWordCR_def
      using s C R b e
      by (intro exI [of _ "c # pre"] exI [of _ c'] exI [of _ r'] exI [of _ post])
         (simp split: if_splits)
  qed
qed

lemma hasWordCR_crAt: "hasWordCR p s = specWordCR p s"
proof (induction p s rule: hasWordCR.induct)
  case (1 prevWord c r rest)
  then show ?case
    by (cases rest) (auto simp: specWordCR_Cons)
qed (simp_all add: specWordCR_Nil specWordCR_single)

section \<open>Lemmas: date lines\<close>

lemma parseInt_two: "parseInt [a, b] = 10 * int (digitVal a) + int (digitVal b)"
  by (simp add: parseInt_def)

lemma dateMatch_Some:
  "dateMatch l = Some (day, mon) \<longleftrightarrow>
     (\<exists>a b c d. l = [a, b, CHR ''/'', c, d]
        \<and> isDigit a \<and> isDigit b \<and> isDigit c \<and> isDigit d
        \<and> day = 10 * int (digitVal a) + int (digitVal b)
        \<and> mon = 10 * int (digitVal c) + int (digitVal d))"
  by (auto simp: dateMatch_def parseInt_two split: list.splits)

lemma isNextDate_dateMatch:
  "isNextDate l \<longleftrightarrow>
     (\<exists>day mon. dateMatch l = Some (day, mon) \<and> 1 \<le> day \<and> day \<le> 31 \<and> 1 \<le> mon \<and> mon \<le> 12)"
  by (auto simp: isNextDate_def split: option.splits)

lemma isNextDate_shape:
  "isNextDate l \<longleftrightarrow>
     (\<exists>a b c d. l = [a, b, CHR ''/'', c, d]
        \<and> isDigit a \<and> isDigit b \<and> isDigit c \<and> isDigit d
        \<and> 1 \<le> 10 * int (digitVal a) + int (digitVal b)
        \<and> 10 * int (digitVal a) + int (digitVal b) \<le> 31
        \<and> 1 \<le> 10 * int (digitVal c) + int (digitVal d)
        \<and> 10 * int (digitVal c) + int (digitVal d) \<le> 12)"
  unfolding isNextDate_dateMatch dateMatch_Some by (safe; blast?)

lemma scanLines_not_date:
  "\<not> isNextDate l \<Longrightarrow> scanLines year (l # ls) = scanLines year ls"
  by (auto simp: isNextDate_def split: option.splits)

lemma scanLines_date:
  "isNextDate l \<Longrightarrow>
     \<exists>day mon. dateMatch l = Some (day, mon) \<and>
       scanLines year (l # ls) =
         (case collectLines [] ls of
            (block, rest) \<Rightarrow>
              (case processBlock year day mon block of
                 None \<Rightarrow> scanLines year rest
               | Some t \<Rightarrow> t # scanLines year rest))"
  by (auto simp: isNextDate_def split: option.splits)

lemma collectLines_stops:
  "isNextDate l \<Longrightarrow> collectLines acc (l # ls) = (acc, l # ls)"
  by simp

lemma collectLines_block:
  "collectLines acc ls = (block, rest) \<Longrightarrow>
     set rest \<subseteq> set ls \<and> set block \<subseteq> set acc \<union> {x \<in> set ls. \<not> isNextDate x}"
  by (induction acc ls arbitrary: block rest rule: collectLines.induct)
     (auto split: if_splits)

lemma scanLines_origin:
  "t \<in> set (scanLines year ls) \<Longrightarrow>
     \<exists>l day mon block. l \<in> set ls \<and> isNextDate l \<and> dateMatch l = Some (day, mon)
        \<and> set block \<subseteq> {x \<in> set ls. \<not> isNextDate x}
        \<and> processBlock year day mon block = Some t"
proof (induction "length ls" arbitrary: ls rule: less_induct)
  case less
  show ?case
  proof (cases ls)
    case Nil
    with less.prems show ?thesis by simp
  next
    case (Cons line ls')
    have ih: "\<And>r. length r \<le> length ls' \<Longrightarrow> t \<in> set (scanLines year r) \<Longrightarrow>
                 \<exists>l day mon block. l \<in> set r \<and> isNextDate l \<and> dateMatch l = Some (day, mon)
                    \<and> set block \<subseteq> {x \<in> set r. \<not> isNextDate x}
                    \<and> processBlock year day mon block = Some t"
      using less.hyps Cons by (simp add: less_Suc_eq_le)
    obtain d rest where c: "collectLines [] ls' = (d, rest)"
      by (cases "collectLines [] ls'")
    have lr: "length rest \<le> length ls'"
      using collectLines_rest_length [OF c] .
    have sub: "set rest \<subseteq> set ls'" and blk: "set d \<subseteq> {x \<in> set ls'. \<not> isNextDate x}"
      using collectLines_block [OF c] by auto
    have up: "\<And>r. set r \<subseteq> set ls' \<Longrightarrow>
       (\<exists>l day mon block. l \<in> set r \<and> isNextDate l \<and> dateMatch l = Some (day, mon)
                    \<and> set block \<subseteq> {x \<in> set r. \<not> isNextDate x}
                    \<and> processBlock year day mon block = Some t) \<Longrightarrow>
       (\<exists>l day mon block. l \<in> set (line # ls') \<and> isNextDate l \<and> dateMatch l = Some (day, mon)
                    \<and> set block \<subseteq> {x \<in> set (line # ls'). \<not> isNextDate x}
                    \<and> processBlock year day mon block = Some t)"
    proof -
      fix r
      assume r: "set r \<subseteq> set ls'"
      assume "\<exists>l day mon block. l \<in> set r \<and> isNextDate l \<and> dateMatch l = Some (day, mon)
                    \<and> set block \<subseteq> {x \<in> set r. \<not> isNextDate x}
                    \<and> processBlock year day mon block = Some t"
      then obtain l day mon block where
        "l \<in> set r" "isNextDate l" "dateMatch l = Some (day, mon)"
        "set block \<subseteq> {x \<in> set r. \<not> isNextDate x}"
        "processBlock year day mon block = Some t"
        by blast
      with r show "\<exists>l day mon block. l \<in> set (line # ls') \<and> isNextDate l
                    \<and> dateMatch l = Some (day, mon)
                    \<and> set block \<subseteq> {x \<in> set (line # ls'). \<not> isNextDate x}
                    \<and> processBlock year day mon block = Some t"
        by (intro exI [of _ l] exI [of _ day] exI [of _ mon] exI [of _ block]) auto
    qed
    show ?thesis
    proof (cases "isNextDate line")
      case False
      have "scanLines year ls = scanLines year ls'"
        unfolding Cons by (rule scanLines_not_date [OF False])
      with less.prems have "t \<in> set (scanLines year ls')"
        by (simp only:)
      from up [OF subset_refl ih [OF le_refl this]] show ?thesis unfolding Cons .
    next
      case True
      from scanLines_date [OF True, of year ls'] obtain day mon where
        m: "dateMatch line = Some (day, mon)"
        and eq: "scanLines year (line # ls') =
           (case processBlock year day mon d of
                 None \<Rightarrow> scanLines year rest
               | Some t \<Rightarrow> t # scanLines year rest)"
        using c by auto
      show ?thesis
      proof (cases "processBlock year day mon d = Some t")
        case pb: True
        show ?thesis unfolding Cons
          using True m blk pb
          by (intro exI [of _ line] exI [of _ day] exI [of _ mon] exI [of _ d]) auto
      next
        case False
        with less.prems Cons eq have "t \<in> set (scanLines year rest)"
          by (auto split: option.splits)
        from up [OF sub ih [OF lr this]] show ?thesis unfolding Cons .
      qed
    qed
  qed
qed

lemma collectLines_append:
  "isNextDate l \<Longrightarrow>
     collectLines acc (pre @ l # rest) =
       (case collectLines acc pre of (b, r) \<Rightarrow> (b, r @ l # rest))"
  by (induction acc pre rule: collectLines.induct) auto

lemma scanLines_append:
  "isNextDate l \<Longrightarrow>
     scanLines year (pre @ l # rest) = scanLines year pre @ scanLines year (l # rest)"
proof (induction "length pre" arbitrary: pre rule: less_induct)
  case less
  show ?case
  proof (cases pre)
    case Nil
    then show ?thesis by simp
  next
    case (Cons x xs)
    have ih: "\<And>r. length r \<le> length xs \<Longrightarrow>
        scanLines year (r @ l # rest) = scanLines year r @ scanLines year (l # rest)"
      using less.hyps [OF _ less.prems] Cons by (simp add: less_Suc_eq_le)
    obtain b r where c: "collectLines [] xs = (b, r)"
      by (cases "collectLines [] xs")
    have lr: "length r \<le> length xs"
      using collectLines_rest_length [OF c] .
    have c': "collectLines [] (xs @ l # rest) = (b, r @ l # rest)"
      using collectLines_append [OF less.prems, of "[]" xs rest] c by simp
    show ?thesis
    proof (cases "isNextDate x")
      case False
      have "scanLines year (x # xs @ l # rest) = scanLines year (xs @ l # rest)"
        by (rule scanLines_not_date [OF False])
      moreover have "scanLines year (x # xs) = scanLines year xs"
        by (rule scanLines_not_date [OF False])
      ultimately show ?thesis unfolding Cons using ih [OF le_refl]
        by (simp only: append_Cons)
    next
      case True
      from scanLines_date [OF True, of year "xs @ l # rest"] c'
      obtain day mon where m: "dateMatch x = Some (day, mon)"
        and e1: "scanLines year (x # xs @ l # rest) =
           (case processBlock year day mon b of
                 None \<Rightarrow> scanLines year (r @ l # rest)
               | Some t \<Rightarrow> t # scanLines year (r @ l # rest))"
        by auto
      from scanLines_date [OF True, of year xs] c m
      have e2: "scanLines year (x # xs) =
           (case processBlock year day mon b of
                 None \<Rightarrow> scanLines year r
               | Some t \<Rightarrow> t # scanLines year r)"
        by auto
      show ?thesis unfolding Cons append_Cons e1 e2 ih [OF lr]
        by (simp split: option.splits)
    qed
  qed
qed

lemma collectLines_struct:
  "length acc \<le> 50 \<Longrightarrow> collectLines acc ls = (b, r) \<Longrightarrow>
     \<exists>blk. b = acc @ blk \<and> ls = blk @ r \<and> list_all (\<lambda>x. \<not> isNextDate x) blk
       \<and> (r = [] \<or> isNextDate (hd r) \<or> length b = 51)"
proof (induction acc ls arbitrary: b r rule: collectLines.induct)
  case (1 descriptionLines)
  then show ?case by simp
next
  case (2 descriptionLines nextLine ls)
  show ?case
  proof (cases "isNextDate nextLine")
    case True
    with "2.prems" show ?thesis by auto
  next
    case False
    show ?thesis
    proof (cases "length (descriptionLines @ [nextLine]) > 50")
      case True
      with False "2.prems" have "b = descriptionLines @ [nextLine]" "r = ls" "length b = 51"
        by auto
      with False show ?thesis by (intro exI [of _ "[nextLine]"]) simp
    next
      case big: False
      with False "2.prems" have c: "collectLines (descriptionLines @ [nextLine]) ls = (b, r)"
        and l: "length (descriptionLines @ [nextLine]) \<le> 50"
        by auto
      from "2.IH" [OF False big l c] obtain blk where
        "b = (descriptionLines @ [nextLine]) @ blk" "ls = blk @ r"
        "list_all (\<lambda>x. \<not> isNextDate x) blk"
        "r = [] \<or> isNextDate (hd r) \<or> length b = 51"
        by blast
      with False show ?thesis by (intro exI [of _ "nextLine # blk"]) simp
    qed
  qed
qed

lemma scanLines_segment:
  "t \<in> set (scanLines year ls) \<Longrightarrow>
     \<exists>pre l block rest day mon.
        ls = pre @ l # block @ rest \<and> isNextDate l \<and> dateMatch l = Some (day, mon)
        \<and> list_all (\<lambda>x. \<not> isNextDate x) block
        \<and> (rest = [] \<or> isNextDate (hd rest) \<or> length block = 51)
        \<and> processBlock year day mon block = Some t"
proof (induction "length ls" arbitrary: ls rule: less_induct)
  case less
  show ?case
  proof (cases ls)
    case Nil
    with less.prems show ?thesis by simp
  next
    case (Cons line ls')
    have ih: "\<And>r. length r \<le> length ls' \<Longrightarrow> t \<in> set (scanLines year r) \<Longrightarrow>
        \<exists>pre l block rest day mon.
          r = pre @ l # block @ rest \<and> isNextDate l \<and> dateMatch l = Some (day, mon)
          \<and> list_all (\<lambda>x. \<not> isNextDate x) block
          \<and> (rest = [] \<or> isNextDate (hd rest) \<or> length block = 51)
          \<and> processBlock year day mon block = Some t"
      using less.hyps Cons by (simp add: less_Suc_eq_le)
    obtain d r where c: "collectLines [] ls' = (d, r)"
      by (cases "collectLines [] ls'")
    have lr: "length r \<le> length ls'"
      using collectLines_rest_length [OF c] .
    from collectLines_struct [OF _ c] have
      dr: "ls' = d @ r" and nd: "list_all (\<lambda>x. \<not> isNextDate x) d"
      and stop: "r = [] \<or> isNextDate (hd r) \<or> length d = 51"
      by auto
    have up: "\<exists>pre l block rest day mon.
          ls = pre @ l # block @ rest \<and> isNextDate l \<and> dateMatch l = Some (day, mon)
          \<and> list_all (\<lambda>x. \<not> isNextDate x) block
          \<and> (rest = [] \<or> isNextDate (hd rest) \<or> length block = 51)
          \<and> processBlock year day mon block = Some t"
      if s: "ls = front @ q" and q: "length q \<le> length ls'" and m: "t \<in> set (scanLines year q)"
      for front q
    proof -
      from ih [OF q m] obtain pre l block rest day mon where
        "q = pre @ l # block @ rest" "isNextDate l" "dateMatch l = Some (day, mon)"
        "list_all (\<lambda>x. \<not> isNextDate x) block"
        "rest = [] \<or> isNextDate (hd rest) \<or> length block = 51"
        "processBlock year day mon block = Some t"
        by blast
      with s show ?thesis
        by (intro exI [of _ "front @ pre"] exI [of _ l] exI [of _ block] exI [of _ rest]
              exI [of _ day] exI [of _ mon]) simp
    qed
    show ?thesis
    proof (cases "isNextDate line")
      case False
      have "scanLines year ls = scanLines year ls'"
        unfolding Cons by (rule scanLines_not_date [OF False])
      with less.prems have "t \<in> set (scanLines year ls')"
        by (simp only:)
      from up [of "[line]" ls', OF _ le_refl this] Cons show ?thesis by simp
    next
      case True
      from scanLines_date [OF True, of year ls'] obtain day mon where
        m: "dateMatch line = Some (day, mon)"
        and eq: "scanLines year (line # ls') =
           (case processBlock year day mon d of
                 None \<Rightarrow> scanLines year r
               | Some t \<Rightarrow> t # scanLines year r)"
        using c by auto
      show ?thesis
      proof (cases "processBlock year day mon d = Some t")
        case pb: True
        show ?thesis
          using True m nd stop pb Cons dr
          by (intro exI [of _ "[]"] exI [of _ line] exI [of _ d] exI [of _ r]
                exI [of _ day] exI [of _ mon]) simp
      next
        case False
        with less.prems Cons eq have "t \<in> set (scanLines year r)"
          by (auto split: option.splits)
        from up [of "line # d" r, OF _ lr this] Cons dr show ?thesis by simp
      qed
    qed
  qed
qed

lemma splitLines_not_Nil: "splitLines s \<noteq> []"
  by (induction s) (auto split: list.splits)

lemma splitLines_no_newline: "l \<in> set (splitLines s) \<Longrightarrow> newline \<notin> set l"
  by (induction s arbitrary: l) (auto split: if_splits list.splits)

lemma splitLines_plain: "newline \<notin> set x \<Longrightarrow> splitLines x = [x]"
  by (induction x) auto

lemma splitLines_append_newline:
  "newline \<notin> set x \<Longrightarrow> splitLines (x @ newline # r) = x # splitLines r"
  by (induction x) (auto split: list.splits)

lemma splitLines_joinWith:
  "block \<noteq> [] \<Longrightarrow> \<forall>l\<in>set block. newline \<notin> set l \<Longrightarrow>
     splitLines (joinWith [newline] block) = block"
  by (induction "[newline]" block rule: joinWith.induct)
     (simp_all add: splitLines_plain splitLines_append_newline)

lemma trim_subset: "set (trim l) \<subseteq> set l"
proof -
  have "set (dropWhile isSpace (rev (dropWhile isSpace l))) \<subseteq> set (rev (dropWhile isSpace l))"
    by (auto dest: set_dropWhileD)
  also have "\<dots> \<subseteq> set l" by (auto dest: set_dropWhileD)
  finally show ?thesis by (simp add: trim_def)
qed

lemma lines_no_newline:
  "l \<in> set (filter (\<lambda>l. length l > 0) (map trim (splitLines s))) \<Longrightarrow> newline \<notin> set l"
  using splitLines_no_newline trim_subset by fastforce

section \<open>Lemmas: hex strings\<close>

lemma decodeByte_cases:
  "decodeByte b = (if 32 \<le> b \<and> b \<le> 126 then [char_of b] else if b = 10 then [newline] else [])"
  by (simp add: decodeByte_def)

lemma hexParts_filter:
  "hexParts ms = filter (\<lambda>d. trim d \<noteq> []) (map decodeHex (filter (\<lambda>h. even (length h)) ms))"
  by (induction ms) (simp_all add: even_iff_mod_2_eq_zero)

lemma hexVal_digits_all:
  "list_all (\<lambda>n. hexVal (''0123456789ABCDEF'' ! n) = n) [0..<16]"
  by code_simp

lemma hexVal_digit:
  "n < 16 \<Longrightarrow> hexVal (''0123456789ABCDEF'' ! n) = n"
  using hexVal_digits_all unfolding list_all_iff by simp

lemma hexVal_pair:
  "b < 256 \<Longrightarrow> hexVal (''0123456789ABCDEF'' ! (b div 16)) * 16 + hexVal (''0123456789ABCDEF'' ! (b mod 16)) = b"
proof -
  assume b: "b < 256"
  then have "b div 16 < 16" by simp
  moreover have "b mod 16 < 16" by simp
  ultimately show ?thesis by (simp only: hexVal_digit) simp
qed

lemma decodeHex_hexPairs:
  "\<forall>b\<in>set bs. b < 256 \<Longrightarrow> decodeHex (concat (map specHexPair bs)) = concat (map decodeByte bs)"
proof (induction bs)
  case Nil
  then show ?case by simp
next
  case (Cons b bs)
  then have "b < 256" by simp
  from hexVal_pair [OF this] Cons show ?case by (simp add: specHexPair_def)
qed

lemma extract_strategy:
  "extractTextFromPDF decoder pdfData =
     (if parenMatches (decoder pdfData) \<noteq> []
      then joinWith [newline] (map unescape (parenMatches (decoder pdfData)))
      else joinWith [newline] (hexParts (hexMatches (decoder pdfData))))"
  by (simp add: extractTextFromPDF_def Let_def)

lemma takeWhile_all: "list_all P (takeWhile P xs)"
  by (induction xs) simp_all

lemma hexMatches_runs:
  "h \<in> set (hexMatches raw) \<Longrightarrow> h \<noteq> [] \<and> list_all isHexDigit h"
proof (induction raw rule: hexMatches.induct)
  case 1
  then show ?case by simp
next
  case (2 c cs)
  let ?g = "c = CHR ''<'' \<and> takeWhile isHexDigit cs \<noteq> []
         \<and> (case dropWhile isHexDigit cs of [] \<Rightarrow> False | x # _ \<Rightarrow> x = CHR ''>'')"
  show ?case
  proof (cases ?g)
    case True
    then have "hexMatches (c # cs)
        = takeWhile isHexDigit cs # hexMatches (tl (dropWhile isHexDigit cs))"
      by (subst hexMatches.simps) (rule if_P)
    with "2.prems" have "h = takeWhile isHexDigit cs
        \<or> h \<in> set (hexMatches (tl (dropWhile isHexDigit cs)))"
      by simp
    then show ?thesis
    proof
      assume "h = takeWhile isHexDigit cs"
      with True show ?thesis by (simp add: takeWhile_all)
    next
      assume "h \<in> set (hexMatches (tl (dropWhile isHexDigit cs)))"
      with "2.IH"(1) True show ?thesis by blast
    qed
  next
    case False
    then have "hexMatches (c # cs) = hexMatches cs"
      by (subst hexMatches.simps) (rule if_not_P)
    with "2.prems" "2.IH"(2) False show ?thesis by metis
  qed
qed

section \<open>C1: the example block\<close>

text \<open>
  C1. The block of the example, after the date line \<open>05/01\<close>. The parser emits one
  transaction; its description is the four lines joined by line breaks, its reference
  is \<open>0211/FTSCY/WS95051\<close> and its balance is 10000000, but its debit amount is 211:
  the first run of digits of the block is the \<open>0211\<close> of the reference, and the first
  amount kept is the transaction amount. The specification states 500000.
\<close>

theorem example_block_transaction:
  "map (\<lambda>t. (description t, reference t, debitAmount t, creditAmount t, balance t))
     (transactions (parseBCAStatement 2025
        ''05/01\<newline>0211/FTSCY/WS95051\<newline>PEMBAYARAN INVOICE\<newline>500.000,00 DB\<newline>10.000.000,00''
        ''IDR''))
   = [(''0211/FTSCY/WS95051\<newline>PEMBAYARAN INVOICE\<newline>500.000,00 DB\<newline>10.000.000,00'',
       ''0211/FTSCY/WS95051'', 211, 0, Some 10000000)]"
  by code_simp

section \<open>C2: the cap of the inner loop\<close>

text \<open>
  C2. A date line followed by sixty lines that are not dates: the inner loop collects
  51 of them, since it pushes a line before it tests the length against 50, and the
  transaction's description has 51 lines. The comment in the source and the
  specification state a cap of 50.
\<close>

theorem collect_block_sixty_lines:
  "length (fst (collectLines [] (replicate 60 ''7''))) = 51
   \<and> map (\<lambda>t. length (splitLines (description t)))
        (transactions (parseBCAStatement 2025
           (joinWith [newline] (''05/01'' # replicate 60 ''7'')) ''IDR'')) = [51]"
  by code_simp

section \<open>C3: the numeric normalizer\<close>

text \<open>
  C3. \<open>parseAmount\<close> on the five test vectors, and the rule for one period and one
  comma: the period is removed and the comma is read as the decimal point. The rule is
  stated on the cleaned string for any input, and by value for a token written as
  digits, a period, digits, a comma, digits.
\<close>

theorem parseAmount_policy:
  "parseAmount ''1.234.567,89'' = 123456789 / 100
   \<and> parseAmount ''1,234,567.89'' = 123456789 / 100
   \<and> parseAmount ''1.234,00'' = 1234
   \<and> parseAmount ''50,5'' = 101 / 2
   \<and> parseAmount '''' = 0
   \<and> (countChar (CHR ''.'') (filter isAmountChar tok) = 1
        \<and> countChar (CHR '','') (filter isAmountChar tok) = 1 \<longrightarrow>
      parseAmount tok =
        (case parseFloat (map (\<lambda>c. if c = CHR '','' then CHR ''.'' else c)
                           (removeChar (CHR ''.'') (filter isAmountChar tok))) of
           None \<Rightarrow> 0 | Some v \<Rightarrow> v))
   \<and> (list_all isDigit a \<and> list_all isDigit b \<and> list_all isDigit c \<longrightarrow>
      parseAmount (a @ ''.'' @ b @ '','' @ c)
        = of_int (parseInt (a @ b)) + of_int (parseInt c) / 10 ^ length c)"
proof -
  have v1: "parseAmount ''1.234.567,89'' = 123456789 / 100" by code_simp
  have v2: "parseAmount ''1,234,567.89'' = 123456789 / 100" by code_simp
  have v3: "parseAmount ''1.234,00'' = 1234" by code_simp
  have v4: "parseAmount ''50,5'' = 101 / 2" by code_simp
  have v5: "parseAmount '''' = 0" by (simp add: parseAmount_def)
  show ?thesis
    using v1 v2 v3 v4 v5 parseAmount_one_period_one_comma [of tok]
      parseAmount_indonesian [of a b c]
    by blast
qed

theorem parseAmount_policy_witness:
  "countChar (CHR ''.'') (filter isAmountChar ''1,234.56'') = 1
   \<and> countChar (CHR '','') (filter isAmountChar ''1,234.56'') = 1
   \<and> parseAmount ''1,234.56'' = 3858 / 3125
   \<and> list_all isDigit ''12'' \<and> list_all isDigit ''345'' \<and> list_all isDigit ''60''
   \<and> parseAmount (''12'' @ ''.'' @ ''345'' @ '','' @ ''60'') = 61728 / 5"
proof -
  have h1: "countChar (CHR ''.'') (filter isAmountChar ''1,234.56'') = 1" by code_simp
  have h2: "countChar (CHR '','') (filter isAmountChar ''1,234.56'') = 1" by code_simp
  have r1: "(case parseFloat (map (\<lambda>c. if c = CHR '','' then CHR ''.'' else c)
                           (removeChar (CHR ''.'') (filter isAmountChar ''1,234.56''))) of
           None \<Rightarrow> 0 | Some v \<Rightarrow> v) = 3858 / 3125" by code_simp
  have d1: "list_all isDigit ''12''" by code_simp
  have d2: "list_all isDigit ''345''" by code_simp
  have d3: "list_all isDigit ''60''" by code_simp
  have r2: "of_int (parseInt (''12'' @ ''345'')) + of_int (parseInt ''60'') / 10 ^ length ''60''
             = (61728 / 5 :: rat)" by code_simp
  from parseAmount_policy [of "''1,234.56''" "''12''" "''345''" "''60''"] h1 h2 d1 d2 d3
  have "parseAmount ''1,234.56'' =
        (case parseFloat (map (\<lambda>c. if c = CHR '','' then CHR ''.'' else c)
                           (removeChar (CHR ''.'') (filter isAmountChar ''1,234.56''))) of
           None \<Rightarrow> 0 | Some v \<Rightarrow> v)"
    and "parseAmount (''12'' @ ''.'' @ ''345'' @ '','' @ ''60'')
        = of_int (parseInt (''12'' @ ''345'')) + of_int (parseInt ''60'') / 10 ^ length ''60''"
    by blast+
  with r1 r2 h1 h2 d1 d2 d3 show ?thesis by (simp only: simp_thms)
qed

section \<open>C4: date lines\<close>

text \<open>
  C4. A line is taken as a date exactly when it is two digits, a slash and two digits
  with the day from 1 to 31 and the month from 1 to 12. Such a line ends the block being
  collected without being consumed, and the outer loop opens a block at it; at any other
  line the outer loop moves on without a transaction. In a parse result, the lines of a
  transaction's description are the lines of the text that follow one such line, up to
  the next such line, the end of the text or the cap of the inner loop; none of them is
  such a line, and the transaction is dated from the line before them. The parse of a
  text splits at each such line: its transactions are those of the lines before it
  followed by those of the lines from it on.
\<close>

theorem date_boundary:
  "(isNextDate l \<longleftrightarrow>
      (\<exists>a b c d. l = [a, b, CHR ''/'', c, d]
         \<and> isDigit a \<and> isDigit b \<and> isDigit c \<and> isDigit d
         \<and> 1 \<le> 10 * int (digitVal a) + int (digitVal b)
         \<and> 10 * int (digitVal a) + int (digitVal b) \<le> 31
         \<and> 1 \<le> 10 * int (digitVal c) + int (digitVal d)
         \<and> 10 * int (digitVal c) + int (digitVal d) \<le> 12))
   \<and> (isNextDate l \<longrightarrow>
        collectLines acc (l # ls) = (acc, l # ls)
        \<and> (\<exists>day mon. dateMatch l = Some (day, mon) \<and>
              scanLines year (l # ls) =
                (case collectLines [] ls of
                   (block, rest) \<Rightarrow>
                     (case processBlock year day mon block of
                        None \<Rightarrow> scanLines year rest
                      | Some t \<Rightarrow> t # scanLines year rest))))
   \<and> (\<not> isNextDate l \<longrightarrow> scanLines year (l # ls) = scanLines year ls)
   \<and> (t \<in> set (transactions (parseBCAStatement y input cur)) \<longrightarrow>
        list_all (\<lambda>x. \<not> isNextDate x) (splitLines (description t))
        \<and> (\<exists>pre l' rest day mon.
              filter (\<lambda>l. length l > 0) (map trim (splitLines input))
                = pre @ l' # splitLines (description t) @ rest
              \<and> isNextDate l' \<and> dateMatch l' = Some (day, mon)
              \<and> date t =
                  isoDate (case searchFirst periodAt input of
                             None \<Rightarrow> y | Some (m, yy) \<Rightarrow> parseInt yy) mon day
              \<and> (rest = [] \<or> isNextDate (hd rest)
                   \<or> length (splitLines (description t)) = 51)))
   \<and> (filter (\<lambda>l. length l > 0) (map trim (splitLines input)) = before @ l # after
        \<and> isNextDate l \<longrightarrow>
        transactions (parseBCAStatement y input cur) =
          scanLines (case searchFirst periodAt input of
                       None \<Rightarrow> y | Some (m, yy) \<Rightarrow> parseInt yy) before
          @ scanLines (case searchFirst periodAt input of
                         None \<Rightarrow> y | Some (m, yy) \<Rightarrow> parseInt yy) (l # after))"
proof -
  let ?lines = "filter (\<lambda>l. length l > 0) (map trim (splitLines input))"
  let ?year = "case searchFirst periodAt input of None \<Rightarrow> y | Some (m, yy) \<Rightarrow> parseInt yy"
  have 4: "list_all (\<lambda>x. \<not> isNextDate x) (splitLines (description t))
        \<and> (\<exists>pre l' rest day mon.
              ?lines = pre @ l' # splitLines (description t) @ rest
              \<and> isNextDate l' \<and> dateMatch l' = Some (day, mon)
              \<and> date t = isoDate ?year mon day
              \<and> (rest = [] \<or> isNextDate (hd rest)
                   \<or> length (splitLines (description t)) = 51))"
    if m: "t \<in> set (transactions (parseBCAStatement y input cur))"
  proof -
    from m have "t \<in> set (scanLines ?year ?lines)"
      by (simp only: transactions_parse)
    from scanLines_segment [OF this] obtain pre l' block rest day mon where
      o: "?lines = pre @ l' # block @ rest" "isNextDate l'" "dateMatch l' = Some (day, mon)"
         "list_all (\<lambda>x. \<not> isNextDate x) block"
         "rest = [] \<or> isNextDate (hd rest) \<or> length block = 51"
         "processBlock ?year day mon block = Some t"
      by blast
    from processBlock_Some [OF o(6)] have
      dt: "date t = isoDate ?year mon day"
      and ds: "description t = joinWith [newline] block"
      and ln: "3 \<le> length (trim (joinWith [newline] block))"
      by blast+
    from ln have ne: "block \<noteq> []" by (auto simp: trim_def)
    have "set block \<subseteq> set ?lines" using o(1) by auto
    then have "\<forall>l\<in>set block. newline \<notin> set l"
      using lines_no_newline [of _ input] by blast
    from splitLines_joinWith [OF ne this] ds
    have sp: "splitLines (description t) = block" by simp
    from o(1,2,3,4,5) dt show ?thesis unfolding sp by blast
  qed
  have 5: "transactions (parseBCAStatement y input cur) =
          scanLines ?year before @ scanLines ?year (l # after)"
    if "?lines = before @ l # after \<and> isNextDate l"
    using that scanLines_append [of l ?year before after]
    by (simp only: transactions_parse)
  show ?thesis
    using isNextDate_shape [of l] collectLines_stops [of l acc ls]
      scanLines_date [of l year ls] scanLines_not_date [of l year ls] 4 5
    by blast
qed

theorem date_boundary_witness:
  "isNextDate ''31/12''
   \<and> collectLines [''a''] [''31/12'', ''b''] = ([''a''], [''31/12'', ''b''])
   \<and> (\<exists>day mon. dateMatch ''31/12'' = Some (day, mon) \<and>
         scanLines 2025 [''31/12'', ''b''] =
           (case collectLines [] [''b''] of
              (block, rest) \<Rightarrow>
                (case processBlock 2025 day mon block of
                   None \<Rightarrow> scanLines 2025 rest
                 | Some t \<Rightarrow> t # scanLines 2025 rest)))
   \<and> \<not> isNextDate ''13/13''
   \<and> scanLines 2025 [''13/13'', ''b''] = scanLines 2025 [''b'']
   \<and> \<lparr>date = ''2025-01-05'', description = ''TRANSFER MASUK\<newline>500.000,00 CR'',
        reference = [], branchCode = [], debitAmount = 0, creditAmount = 500000,
        balance = None\<rparr> \<in> set (transactions (parseBCAStatement 2025 ''00/05\<newline>05/01\<newline>TRANSFER MASUK\<newline>500.000,00 CR\<newline>06/01\<newline>BIAYA ADMIN\<newline>10.000,00 DB'' ''IDR''))
   \<and> list_all (\<lambda>x. \<not> isNextDate x) (splitLines (description \<lparr>date = ''2025-01-05'', description = ''TRANSFER MASUK\<newline>500.000,00 CR'',
        reference = [], branchCode = [], debitAmount = 0, creditAmount = 500000,
        balance = None\<rparr>))
   \<and> (\<exists>pre l' rest day mon.
         filter (\<lambda>l. length l > 0) (map trim (splitLines ''00/05\<newline>05/01\<newline>TRANSFER MASUK\<newline>500.000,00 CR\<newline>06/01\<newline>BIAYA ADMIN\<newline>10.000,00 DB''))
           = pre @ l' # splitLines (description \<lparr>date = ''2025-01-05'', description = ''TRANSFER MASUK\<newline>500.000,00 CR'',
        reference = [], branchCode = [], debitAmount = 0, creditAmount = 500000,
        balance = None\<rparr>) @ rest
         \<and> isNextDate l' \<and> dateMatch l' = Some (day, mon)
         \<and> date \<lparr>date = ''2025-01-05'', description = ''TRANSFER MASUK\<newline>500.000,00 CR'',
        reference = [], branchCode = [], debitAmount = 0, creditAmount = 500000,
        balance = None\<rparr> =
             isoDate (case searchFirst periodAt ''00/05\<newline>05/01\<newline>TRANSFER MASUK\<newline>500.000,00 CR\<newline>06/01\<newline>BIAYA ADMIN\<newline>10.000,00 DB'' of
                        None \<Rightarrow> 2025 | Some (m, yy) \<Rightarrow> parseInt yy) mon day
         \<and> (rest = [] \<or> isNextDate (hd rest)
              \<or> length (splitLines (description \<lparr>date = ''2025-01-05'', description = ''TRANSFER MASUK\<newline>500.000,00 CR'',
        reference = [], branchCode = [], debitAmount = 0, creditAmount = 500000,
        balance = None\<rparr>)) = 51))
   \<and> filter (\<lambda>l. length l > 0) (map trim (splitLines ''05/01\<newline>A 1,00\<newline>06/01\<newline>B 2,00''))
       = [''05/01'', ''A 1,00''] @ ''06/01'' # [''B 2,00'']
   \<and> isNextDate ''06/01''
   \<and> transactions (parseBCAStatement 2025 ''05/01\<newline>A 1,00\<newline>06/01\<newline>B 2,00'' ''IDR'') =
          scanLines (case searchFirst periodAt ''05/01\<newline>A 1,00\<newline>06/01\<newline>B 2,00'' of
                       None \<Rightarrow> 2025 | Some (m, yy) \<Rightarrow> parseInt yy) [''05/01'', ''A 1,00'']
          @ scanLines (case searchFirst periodAt ''05/01\<newline>A 1,00\<newline>06/01\<newline>B 2,00'' of
                         None \<Rightarrow> 2025 | Some (m, yy) \<Rightarrow> parseInt yy) [''06/01'', ''B 2,00'']
   \<and> length (transactions (parseBCAStatement 2025 ''05/01\<newline>A 1,00\<newline>06/01\<newline>B 2,00'' ''IDR'')) = 2"
proof -
  have d: "isNextDate ''31/12''" by code_simp
  have n: "\<not> isNextDate ''13/13''" by code_simp
  have m: "\<lparr>date = ''2025-01-05'', description = ''TRANSFER MASUK\<newline>500.000,00 CR'',
        reference = [], branchCode = [], debitAmount = 0, creditAmount = 500000,
        balance = None\<rparr> \<in> set (transactions (parseBCAStatement 2025 ''00/05\<newline>05/01\<newline>TRANSFER MASUK\<newline>500.000,00 CR\<newline>06/01\<newline>BIAYA ADMIN\<newline>10.000,00 DB'' ''IDR''))"
    by code_simp
  have sp: "filter (\<lambda>l. length l > 0) (map trim (splitLines ''05/01\<newline>A 1,00\<newline>06/01\<newline>B 2,00''))
       = [''05/01'', ''A 1,00''] @ ''06/01'' # [''B 2,00'']"
    by code_simp
  have d6: "isNextDate ''06/01''" by code_simp
  have two: "length (transactions (parseBCAStatement 2025 ''05/01\<newline>A 1,00\<newline>06/01\<newline>B 2,00'' ''IDR'')) = 2"
    by code_simp
  from date_boundary [where l = "''31/12''" and acc = "[''a'']" and ls = "[''b'']"
      and year = 2025] d
  have 1: "collectLines [''a''] [''31/12'', ''b''] = ([''a''], [''31/12'', ''b''])
   \<and> (\<exists>day mon. dateMatch ''31/12'' = Some (day, mon) \<and>
         scanLines 2025 [''31/12'', ''b''] =
           (case collectLines [] [''b''] of
              (block, rest) \<Rightarrow>
                (case processBlock 2025 day mon block of
                   None \<Rightarrow> scanLines 2025 rest
                 | Some t \<Rightarrow> t # scanLines 2025 rest)))"
    by blast
  from date_boundary [where l = "''13/13''" and ls = "[''b'']" and year = 2025] n
  have 2: "scanLines 2025 [''13/13'', ''b''] = scanLines 2025 [''b'']"
    by blast
  from date_boundary [where t = "\<lparr>date = ''2025-01-05'', description = ''TRANSFER MASUK\<newline>500.000,00 CR'',
        reference = [], branchCode = [], debitAmount = 0, creditAmount = 500000,
        balance = None\<rparr>" and y = 2025 and input = "''00/05\<newline>05/01\<newline>TRANSFER MASUK\<newline>500.000,00 CR\<newline>06/01\<newline>BIAYA ADMIN\<newline>10.000,00 DB''" and cur = "''IDR''"] m
  have 3: "list_all (\<lambda>x. \<not> isNextDate x) (splitLines (description \<lparr>date = ''2025-01-05'', description = ''TRANSFER MASUK\<newline>500.000,00 CR'',
        reference = [], branchCode = [], debitAmount = 0, creditAmount = 500000,
        balance = None\<rparr>))
   \<and> (\<exists>pre l' rest day mon.
         filter (\<lambda>l. length l > 0) (map trim (splitLines ''00/05\<newline>05/01\<newline>TRANSFER MASUK\<newline>500.000,00 CR\<newline>06/01\<newline>BIAYA ADMIN\<newline>10.000,00 DB''))
           = pre @ l' # splitLines (description \<lparr>date = ''2025-01-05'', description = ''TRANSFER MASUK\<newline>500.000,00 CR'',
        reference = [], branchCode = [], debitAmount = 0, creditAmount = 500000,
        balance = None\<rparr>) @ rest
         \<and> isNextDate l' \<and> dateMatch l' = Some (day, mon)
         \<and> date \<lparr>date = ''2025-01-05'', description = ''TRANSFER MASUK\<newline>500.000,00 CR'',
        reference = [], branchCode = [], debitAmount = 0, creditAmount = 500000,
        balance = None\<rparr> =
             isoDate (case searchFirst periodAt ''00/05\<newline>05/01\<newline>TRANSFER MASUK\<newline>500.000,00 CR\<newline>06/01\<newline>BIAYA ADMIN\<newline>10.000,00 DB'' of
                        None \<Rightarrow> 2025 | Some (m, yy) \<Rightarrow> parseInt yy) mon day
         \<and> (rest = [] \<or> isNextDate (hd rest)
              \<or> length (splitLines (description \<lparr>date = ''2025-01-05'', description = ''TRANSFER MASUK\<newline>500.000,00 CR'',
        reference = [], branchCode = [], debitAmount = 0, creditAmount = 500000,
        balance = None\<rparr>)) = 51))"
    by blast
  from date_boundary [where y = 2025 and input = "''05/01\<newline>A 1,00\<newline>06/01\<newline>B 2,00''" and cur = "''IDR''"
      and before = "[''05/01'', ''A 1,00'']" and l = "''06/01''" and after = "[''B 2,00'']"]
    sp d6
  have 4: "transactions (parseBCAStatement 2025 ''05/01\<newline>A 1,00\<newline>06/01\<newline>B 2,00'' ''IDR'') =
          scanLines (case searchFirst periodAt ''05/01\<newline>A 1,00\<newline>06/01\<newline>B 2,00'' of
                       None \<Rightarrow> 2025 | Some (m, yy) \<Rightarrow> parseInt yy) [''05/01'', ''A 1,00'']
          @ scanLines (case searchFirst periodAt ''05/01\<newline>A 1,00\<newline>06/01\<newline>B 2,00'' of
                         None \<Rightarrow> 2025 | Some (m, yy) \<Rightarrow> parseInt yy) [''06/01'', ''B 2,00'']"
    by blast
  from d n m sp d6 two 1 2 3 4 show ?thesis by (intro conjI) blast+
qed

section \<open>C5: polarity\<close>

text \<open>
  C5. Every transaction of a parse result comes from a block and a strictly positive
  amount: when \<open>CR\<close> stands in the block as a whole word, in either case, the credit
  amount is that amount and the debit amount is 0; otherwise the debit amount is that
  amount and the credit amount is 0.
\<close>

theorem polarity:
  assumes "t \<in> set (transactions (parseBCAStatement y input cur))"
  shows "\<exists>block amount.
           description t = joinWith [newline] block \<and> 0 < amount
           \<and> (if specWordCR False (joinWith '' '' block)
               then creditAmount t = amount \<and> debitAmount t = 0
               else debitAmount t = amount \<and> creditAmount t = 0)"
proof -
  from assms obtain year ls where "t \<in> set (scanLines year ls)"
    by (auto simp: parseBCAStatement_def Let_def)
  then obtain day mon block where pb: "processBlock year day mon block = Some t"
    using scanLines_mem by blast
  let ?A = "collectAmounts (amountTokens [] (joinWith '' '' block))"
  from processBlock_Some [OF pb] have
    ne: "?A \<noteq> []"
    and d: "description t = joinWith [newline] block"
    and db: "debitAmount t = (if hasWordCR False (joinWith '' '' block) then 0 else hd ?A)"
    and cr: "creditAmount t = (if hasWordCR False (joinWith '' '' block) then hd ?A else 0)"
    by blast+
  have "0 < hd ?A"
    using collectAmounts_positive [of "hd ?A" "amountTokens [] (joinWith '' '' block)"] ne by simp
  with d db cr show ?thesis
    by (intro exI [of _ block] exI [of _ "hd ?A"]) (simp add: hasWordCR_crAt)
qed

theorem polarity_witness:
  "\<lparr>date = ''2025-01-05'', description = ''TRANSFER MASUK\<newline>500.000,00 CR'',
      reference = [], branchCode = [], debitAmount = 0, creditAmount = 500000,
      balance = None\<rparr>
     \<in> set (transactions (parseBCAStatement 2025
          ''05/01\<newline>TRANSFER MASUK\<newline>500.000,00 CR\<newline>06/01\<newline>BIAYA ADMIN\<newline>10.000,00 DB\<newline>1.490.000,00''
          ''IDR''))
   \<and> (\<exists>block amount.
         description \<lparr>date = ''2025-01-05'', description = ''TRANSFER MASUK\<newline>500.000,00 CR'',
             reference = [], branchCode = [], debitAmount = 0, creditAmount = 500000,
             balance = None\<rparr> = joinWith [newline] block
         \<and> 0 < amount
         \<and> (if specWordCR False (joinWith '' '' block)
             then creditAmount \<lparr>date = ''2025-01-05'',
                    description = ''TRANSFER MASUK\<newline>500.000,00 CR'',
                    reference = [], branchCode = [], debitAmount = 0, creditAmount = 500000,
                    balance = None\<rparr> = amount
                \<and> debitAmount \<lparr>date = ''2025-01-05'',
                    description = ''TRANSFER MASUK\<newline>500.000,00 CR'',
                    reference = [], branchCode = [], debitAmount = 0, creditAmount = 500000,
                    balance = None\<rparr> = 0
             else debitAmount \<lparr>date = ''2025-01-05'',
                    description = ''TRANSFER MASUK\<newline>500.000,00 CR'',
                    reference = [], branchCode = [], debitAmount = 0, creditAmount = 500000,
                    balance = None\<rparr> = amount
                \<and> creditAmount \<lparr>date = ''2025-01-05'',
                    description = ''TRANSFER MASUK\<newline>500.000,00 CR'',
                    reference = [], branchCode = [], debitAmount = 0, creditAmount = 500000,
                    balance = None\<rparr> = 0))"
proof -
  have m: "\<lparr>date = ''2025-01-05'', description = ''TRANSFER MASUK\<newline>500.000,00 CR'',
      reference = [], branchCode = [], debitAmount = 0, creditAmount = 500000,
      balance = None\<rparr>
     \<in> set (transactions (parseBCAStatement 2025
          ''05/01\<newline>TRANSFER MASUK\<newline>500.000,00 CR\<newline>06/01\<newline>BIAYA ADMIN\<newline>10.000,00 DB\<newline>1.490.000,00''
          ''IDR''))"
    by code_simp
  from m polarity [OF m] show ?thesis by (rule conjI)
qed

section \<open>C6: totals\<close>




section \<open>C7: amount and balance of a block\<close>



section \<open>C8: raw text extraction\<close>

text \<open>
  C8. \<open>extractTextFromPDF\<close> returns a text for every decoder and every byte input; no
  path of it raises. The hex strings are read only when the parenthesis pattern gives
  no block. Each hex match is a non-empty run of hexadecimal digits; the runs of even
  length are decoded and the decoded blocks that are not blank are collected. Decoding
  keeps the bytes from 32 to 126, turns byte 10 into a line break and drops every other
  byte. The blocks are joined by line breaks, and no block gives the empty text.
\<close>

theorem extraction_strategies:
  "extractTextFromPDF decoder pdfData =
     (if parenMatches (decoder pdfData) \<noteq> []
      then joinWith [newline] (map unescape (parenMatches (decoder pdfData)))
      else joinWith [newline] (hexParts (hexMatches (decoder pdfData))))
   \<and> (h \<in> set (hexMatches raw) \<longrightarrow> h \<noteq> [] \<and> list_all isHexDigit h)
   \<and> hexParts ms =
       filter (\<lambda>d. trim d \<noteq> []) (map decodeHex (filter (\<lambda>h. even (length h)) ms))
   \<and> decodeByte b =
       (if 32 \<le> b \<and> b \<le> 126 then [char_of b] else if b = 10 then [newline] else [])
   \<and> (list_all (\<lambda>b. b < 256) bs \<longrightarrow>
        decodeHex (concat (map specHexPair bs)) = concat (map decodeByte bs))
   \<and> (parenMatches (decoder pdfData) = [] \<and> hexParts (hexMatches (decoder pdfData)) = [] \<longrightarrow>
        extractTextFromPDF decoder pdfData = [])"
proof -
  have 5: "decodeHex (concat (map specHexPair bs)) = concat (map decodeByte bs)"
    if "list_all (\<lambda>b. b < 256) bs"
    using that decodeHex_hexPairs [of bs] by (simp add: list_all_iff)
  have 6: "extractTextFromPDF decoder pdfData = []"
    if "parenMatches (decoder pdfData) = [] \<and> hexParts (hexMatches (decoder pdfData)) = []"
    using that by (simp add: extract_strategy)
  show ?thesis
    using extract_strategy [of decoder pdfData] hexMatches_runs [of h raw]
      hexParts_filter [of ms] decodeByte_cases [of b] 5 6
    by blast
qed

theorem extraction_strategies_witness:
  "extractTextFromPDF (map (\<lambda>b. char_of (unat b)))
       [0x3C, 0x34, 0x31, 0x30, 0x41, 0x30, 0x37, 0x34, 0x32, 0x3E] = ''A\<newline>B''
   \<and> ''410A0742'' \<in> set (hexMatches ''<410A0742>'')
   \<and> list_all isHexDigit ''410A0742''
   \<and> list_all (\<lambda>b. b < 256) [65, 10, 7, 66, 200 :: nat]
   \<and> decodeHex (concat (map specHexPair [65, 10, 7, 66, 200])) = ''A\<newline>B''
   \<and> parenMatches (map (\<lambda>b. char_of (unat b)) ([0x25, 0x50, 0x44, 0x46] :: 8 word list)) = []
   \<and> hexParts (hexMatches (map (\<lambda>b. char_of (unat b)) ([0x25, 0x50, 0x44, 0x46] :: 8 word list))) = []
   \<and> extractTextFromPDF (map (\<lambda>b. char_of (unat b))) [0x25, 0x50, 0x44, 0x46] = []"
proof -
  have x: "(if parenMatches (map (\<lambda>b. char_of (unat b))
              ([0x3C, 0x34, 0x31, 0x30, 0x41, 0x30, 0x37, 0x34, 0x32, 0x3E] :: 8 word list)) \<noteq> []
      then joinWith [newline] (map unescape (parenMatches (map (\<lambda>b. char_of (unat b))
              ([0x3C, 0x34, 0x31, 0x30, 0x41, 0x30, 0x37, 0x34, 0x32, 0x3E] :: 8 word list))))
      else joinWith [newline] (hexParts (hexMatches (map (\<lambda>b. char_of (unat b))
              ([0x3C, 0x34, 0x31, 0x30, 0x41, 0x30, 0x37, 0x34, 0x32, 0x3E] :: 8 word list)))))
     = ''A\<newline>B''"
    by code_simp
  have hm: "''410A0742'' \<in> set (hexMatches ''<410A0742>'')" by code_simp
  have bs: "list_all (\<lambda>b. b < 256) [65, 10, 7, 66, 200 :: nat]" by simp
  have dc: "concat (map decodeByte [65, 10, 7, 66, 200]) = ''A\<newline>B''" by code_simp
  have pm: "parenMatches (map (\<lambda>b. char_of (unat b)) ([0x25, 0x50, 0x44, 0x46] :: 8 word list)) = []"
    by code_simp
  have hp: "hexParts (hexMatches (map (\<lambda>b. char_of (unat b)) ([0x25, 0x50, 0x44, 0x46] :: 8 word list))) = []"
    by code_simp
  note T1 = extraction_strategies [where decoder = "map (\<lambda>b. char_of (unat b))"
      and pdfData = "[0x3C, 0x34, 0x31, 0x30, 0x41, 0x30, 0x37, 0x34, 0x32, 0x3E]"
      and h = "''410A0742''" and raw = "''<410A0742>''" and bs = "[65, 10, 7, 66, 200]"]
  note T2 = extraction_strategies [where decoder = "map (\<lambda>b. char_of (unat b))"
      and pdfData = "[0x25, 0x50, 0x44, 0x46]"]
  from T1 x have 1: "extractTextFromPDF (map (\<lambda>b. char_of (unat b)))
       [0x3C, 0x34, 0x31, 0x30, 0x41, 0x30, 0x37, 0x34, 0x32, 0x3E] = ''A\<newline>B''"
    by (simp only:)
  from T1 hm have 2: "list_all isHexDigit ''410A0742''" by blast
  from T1 bs dc have 3: "decodeHex (concat (map specHexPair [65, 10, 7, 66, 200])) = ''A\<newline>B''"
    by (simp only:)
  from T2 pm hp have 4: "extractTextFromPDF (map (\<lambda>b. char_of (unat b))) [0x25, 0x50, 0x44, 0x46] = []"
    by blast
  from 1 hm 2 bs 3 pm hp 4 show ?thesis by (intro conjI)
qed

section \<open>C9: determinism\<close>

text \<open>
  C9. The parse result is a function of the year of the clock, the text and the
  currency. With the same year, or with a period marker in the text, two parses of the
  same text with the same currency give the same result.
\<close>

theorem parse_independent_of_clock:
  "y1 = y2 \<or> searchFirst periodAt input \<noteq> None \<Longrightarrow>
     parseBCAStatement y1 input cur = parseBCAStatement y2 input cur"
  by (auto simp: parseBCAStatement_def Let_def)

theorem parse_independent_of_clock_witness:
  "searchFirst periodAt ''PERIODE: JANUARI 2025\<newline>05/01\<newline>BIAYA ADMIN\<newline>10.000,00 DB''
     = Some (''JANUARI'', ''2025'')
   \<and> parseBCAStatement 1999 ''PERIODE: JANUARI 2025\<newline>05/01\<newline>BIAYA ADMIN\<newline>10.000,00 DB'' ''IDR''
     = parseBCAStatement 2031 ''PERIODE: JANUARI 2025\<newline>05/01\<newline>BIAYA ADMIN\<newline>10.000,00 DB'' ''IDR''"
proof -
  have h: "searchFirst periodAt ''PERIODE: JANUARI 2025\<newline>05/01\<newline>BIAYA ADMIN\<newline>10.000,00 DB''
     = Some (''JANUARI'', ''2025'')" by code_simp
  then have "1999 = (2031::int)
      \<or> searchFirst periodAt ''PERIODE: JANUARI 2025\<newline>05/01\<newline>BIAYA ADMIN\<newline>10.000,00 DB'' \<noteq> None"
    by (simp only: option.distinct simp_thms)
  from parse_independent_of_clock [OF this] h show ?thesis by (simp only: simp_thms)
qed

section \<open>C10: the two length thresholds of the recognition path\<close>

text \<open>
  C10. On the recognition path, with a key configured, a transcription shorter than
  100 characters makes the handler fail, although the adapter accepts any transcription
  of at least 50 characters: a transcription of 50 to 99 characters passes the adapter
  and fails the upload. A text that reaches the parser on this path has at least 100
  characters.
\<close>

theorem ocr_length_gap:
  assumes "isImageFile \<or> useOCR" and "key \<noteq> []"
  shows "(extractTextWithOpenAI response = Inr t \<and> length t < 100 \<longrightarrow>
            acquireText isImageFile useOCR (Some key) response decoder bytes
              = Inl OcrInsufficientText)
     \<and> (50 \<le> length u \<and> length u < 100 \<longrightarrow>
          extractTextWithOpenAI (Message (Some u)) = Inr u
          \<and> acquireText isImageFile useOCR (Some key) (Message (Some u)) decoder bytes
              = Inl OcrInsufficientText)
     \<and> (acquireText isImageFile useOCR (Some key) response decoder bytes = Inr v
          \<longrightarrow> 100 \<le> length v)"
  using assms
  by (auto simp: acquireText_def extractTextWithOpenAI_def split: sum.splits)

theorem ocr_length_gap_witness:
  "extractTextWithOpenAI (Message (Some (replicate 60 (CHR ''a''))))
     = Inr (replicate 60 (CHR ''a''))
   \<and> acquireText True False (Some ''sk'') (Message (Some (replicate 60 (CHR ''a''))))
        (\<lambda>bs. []) [] = Inl OcrInsufficientText
   \<and> acquireText False True (Some ''sk'') (Message (Some (replicate 120 (CHR ''a''))))
        (\<lambda>bs. []) [] = Inr (replicate 120 (CHR ''a''))
   \<and> 100 \<le> length (replicate 120 (CHR ''a''))"
proof -
  have k: "''sk'' \<noteq> []" by simp
  have a: "acquireText False True (Some ''sk'') (Message (Some (replicate 120 (CHR ''a''))))
        (\<lambda>bs. []) [] = Inr (replicate 120 (CHR ''a''))"
    by (simp add: acquireText_def extractTextWithOpenAI_def)
  have l: "50 \<le> length (replicate 60 (CHR ''a'')) \<and> length (replicate 60 (CHR ''a'')) < 100"
    by simp
  from ocr_length_gap [where isImageFile = True and useOCR = False and key = "''sk''"
      and u = "replicate 60 (CHR ''a'')" and decoder = "\<lambda>bs. []" and bytes = "[]", OF _ k] l
  have "extractTextWithOpenAI (Message (Some (replicate 60 (CHR ''a''))))
     = Inr (replicate 60 (CHR ''a''))
   \<and> acquireText True False (Some ''sk'') (Message (Some (replicate 60 (CHR ''a''))))
        (\<lambda>bs. []) [] = Inl OcrInsufficientText"
    by blast
  moreover from ocr_length_gap [where isImageFile = False and useOCR = True and key = "''sk''"
      and response = "Message (Some (replicate 120 (CHR ''a'')))" and decoder = "\<lambda>bs. []"
      and bytes = "[]" and v = "replicate 120 (CHR ''a'')", OF _ k] a
  have "100 \<le> length (replicate 120 (CHR ''a''))" by blast
  ultimately show ?thesis using a by blast
qed

end
